theory Spec2Isabelle
  imports Main "HOL-Library.Word"
begin

section \<open>Polynomial evaluation from a power basis (package integer)\<close>

text \<open>
  The method \<^verbatim>\<open>PolynomialEvaluator.EvaluateFromPowerBasis\<close> converts its polynomial
  argument, looks the entry for the first power up in the map of the power basis, and
  only then hands over to \<^verbatim>\<open>circuits.EvaluatePolynomial\<close>. The types of the packages
  \<^verbatim>\<open>circuits\<close>, \<^verbatim>\<open>rlwe\<close> and \<^verbatim>\<open>bgv\<close> are opaque here: they are type parameters.
\<close>

text \<open>The struct \<^verbatim>\<open>PolynomialEvaluator\<close> with its three fields.\<close>

record ('pe, 'pa) PolynomialEvaluator =
  PolynomialEvaluator :: 'pe
  Parameters :: 'pa
  InvariantTensoring :: bool

text \<open>
  \<^verbatim>\<open>circuits.PowerBasis\<close>: only its field \<^verbatim>\<open>Value\<close>, a Go map from \<^verbatim>\<open>int\<close> to a
  ciphertext pointer, is read by the method. A key can be present and hold a nil
  pointer, so the stored value is an option of its own.
\<close>

record 'ct PowerBasis =
  Value :: "int \<rightharpoonup> 'ct option"

text \<open>
  The argument \<^verbatim>\<open>p interface{}\<close> and the three arms of the type switch: a
  \<^verbatim>\<open>Polynomial\<close> or a \<^verbatim>\<open>PolynomialVector\<close> of this package is converted to the type of
  the same name in \<^verbatim>\<open>circuits\<close>, anything else is passed on unchanged.
\<close>

datatype ('p, 'v, 'o) poly_input =
  IntegerPolynomial 'p
  | IntegerPolynomialVector 'v
  | OtherInput 'o

datatype ('p, 'v, 'o) pcircuits =
  CircuitsPolynomial 'p
  | CircuitsPolynomialVector 'v
  | Unconverted 'o

definition to_pcircuits :: "('p, 'v, 'o) poly_input \<Rightarrow> ('p, 'v, 'o) pcircuits" where
  "to_pcircuits p =
     (case p of
        IntegerPolynomial q \<Rightarrow> CircuitsPolynomial q
      | IntegerPolynomialVector v \<Rightarrow> CircuitsPolynomialVector v
      | OtherInput x \<Rightarrow> Unconverted x)"

text \<open>\<^verbatim>\<open>CoefficientGetter\<close> holds a slice of \<^verbatim>\<open>uint64\<close>.\<close>

record CoefficientGetter =
  Values :: "64 word list"

text \<open>\<^verbatim>\<open>simIntegerPolynomialEvaluator{eval.Parameters, eval.InvariantTensoring}\<close>.\<close>

record 'pa simIntegerPolynomialEvaluator =
  simParameters :: 'pa
  simInvariantTensoring :: bool

text \<open>
  An error is either one this method builds with \<^verbatim>\<open>fmt.Errorf\<close> (kept with its
  message) or one returned by the evaluation it delegates to.
\<close>

datatype 'e error =
  Errorf string
  | EvaluateError 'e

text \<open>
  What a call does: it returns the pair \<^verbatim>\<open>(opOut, err)\<close>, or it panics (a nil
  pointer is dereferenced, or \<^verbatim>\<open>make\<close> gets a length out of range).
\<close>

datatype ('ct, 'e) outcome =
  Panic
  | Return "'ct option" "'e error option"

definition X1_nil_message :: string where
  "X1_nil_message = ''cannot EvaluateFromPowerBasis: X^{1} is nil''"

text \<open>
  The method itself. Its two collaborators are parameters: \<open>EvaluatePolynomial\<close>
  stands for \<^verbatim>\<open>circuits.EvaluatePolynomial\<close> and returns the pair \<^verbatim>\<open>(opOut, err)\<close>
  or \<open>None\<close> when it panics; \<open>Slots\<close> stands for the method \<^verbatim>\<open>Slots()\<close> of a
  ciphertext pointer and returns \<open>None\<close> when the call panics. The literal \<open>1\<close>
  passed to the evaluation is the argument written in the source.

  \<^verbatim>\<open>make([]uint64, n)\<close> panics when \<open>n\<close> is negative and when the \<open>8 * n\<close> bytes
  of the slice exceed the allocation limit of the Go runtime, a constant of the platform
  passed as \<open>maxAlloc\<close>; a length within the limit gives a slice of zeros.
\<close>

definition EvaluateFromPowerBasis ::
  "('pe \<Rightarrow> 'ct PowerBasis \<Rightarrow> ('p, 'v, 'o) pcircuits \<Rightarrow> CoefficientGetter \<Rightarrow> 's \<Rightarrow> int
      \<Rightarrow> 'pa simIntegerPolynomialEvaluator \<Rightarrow> ('ct option \<times> 'e option) option)
   \<Rightarrow> ('ct option \<Rightarrow> int option)
   \<Rightarrow> int
   \<Rightarrow> ('pe, 'pa) PolynomialEvaluator \<Rightarrow> 'ct PowerBasis \<Rightarrow> ('p, 'v, 'o) poly_input \<Rightarrow> 's
   \<Rightarrow> ('ct, 'e) outcome" where
  "EvaluateFromPowerBasis EvaluatePolynomial Slots maxAlloc eval pb p targetScale =
     (let pcircuits = to_pcircuits p in
      case Value pb 1 of
        None \<Rightarrow> Return None (Some (Errorf X1_nil_message))
      | Some x1 \<Rightarrow>
          (case Slots x1 of
             None \<Rightarrow> Panic
           | Some n \<Rightarrow>
               if n < 0 \<or> maxAlloc < 8 * n then Panic
               else
                 (let coeffGetter = \<lparr>Values = replicate (nat n) 0\<rparr> in
                  case EvaluatePolynomial (PolynomialEvaluator eval) pb pcircuits coeffGetter
                         targetScale 1
                         \<lparr>simParameters = Parameters eval,
                          simInvariantTensoring = InvariantTensoring eval\<rparr> of
                    None \<Rightarrow> Panic
                  | Some (opOut, err) \<Rightarrow> Return opOut (map_option EvaluateError err))))"

section \<open>Binary serialisation of Galois keys (package rlwe)\<close>

text \<open>
  Go's \<^verbatim>\<open>uint64\<close> and \<^verbatim>\<open>int64\<close> are 64-bit words; \<^verbatim>\<open>int\<close> is taken at its width on
  64-bit targets. Addition wraps around, as in Go.
\<close>

type_synonym uint64 = "64 word"
type_synonym int64 = "64 word"
type_synonym go_int = "64 word"

text \<open>
  The struct \<^verbatim>\<open>GaloisKey\<close>. The embedded \<^verbatim>\<open>EvaluationKey\<close> wraps a
  \<^verbatim>\<open>GadgetCiphertext\<close>, whose declaration and methods are in another file of the
  package: its type is a parameter.
\<close>

record 'evk GaloisKey =
  GaloisElement :: uint64
  NthRoot :: uint64
  EvaluationKey :: 'evk

text \<open>
  \<^verbatim>\<open>GaloisKey.BinarySize\<close>. The size of the embedded key is the promoted method
  \<^verbatim>\<open>GadgetCiphertext.BinarySize\<close>, passed as \<open>EvaluationKey_BinarySize\<close>.
\<close>

definition GaloisKey_BinarySize :: "('evk \<Rightarrow> go_int) \<Rightarrow> 'evk GaloisKey \<Rightarrow> go_int" where
  "GaloisKey_BinarySize EvaluationKey_BinarySize gk =
     EvaluationKey_BinarySize (EvaluationKey gk) + 16"

text \<open>
  An \<^verbatim>\<open>io.Writer\<close> either implements \<^verbatim>\<open>buffer.Writer\<close> (state of type \<open>'w\<close>) or it
  does not (state of type \<open>'pw\<close>); the type switch of \<^verbatim>\<open>WriteTo\<close> tells them apart.
\<close>

datatype ('w, 'pw) io_Writer =
  BufferWriter 'w
  | PlainWriter 'pw

text \<open>
  The \<^verbatim>\<open>buffer.Writer\<close> arm of \<^verbatim>\<open>GaloisKey.WriteTo\<close>. A write returns the writer
  after it, the count \<^verbatim>\<open>inc\<close> and the error (\<open>None\<close> for \<^verbatim>\<open>nil\<close>). The helper
  \<^verbatim>\<open>buffer.WriteUint64\<close> and the promoted \<^verbatim>\<open>EvaluationKey.WriteTo\<close> are parameters.
  The named result \<^verbatim>\<open>n\<close> starts at zero; every early return gives \<^verbatim>\<open>n + inc\<close>.
\<close>

definition GaloisKey_WriteTo_buffer ::
  "('w \<Rightarrow> uint64 \<Rightarrow> 'w \<times> int64 \<times> 'err option)
   \<Rightarrow> ('evk \<Rightarrow> 'w \<Rightarrow> 'w \<times> int64 \<times> 'err option)
   \<Rightarrow> 'evk GaloisKey \<Rightarrow> 'w \<Rightarrow> 'w \<times> int64 \<times> 'err option" where
  "GaloisKey_WriteTo_buffer WriteUint64 EvaluationKey_WriteTo gk w =
     (let n = 0 in
      case WriteUint64 w (GaloisElement gk) of
        (w1, inc, Some err) \<Rightarrow> (w1, n + inc, Some err)
      | (w1, inc, None) \<Rightarrow>
          (let n = n + inc in
           case WriteUint64 w1 (NthRoot gk) of
             (w2, inc, Some err) \<Rightarrow> (w2, n + inc, Some err)
           | (w2, inc, None) \<Rightarrow>
               (let n = n + inc in
                case EvaluationKey_WriteTo (EvaluationKey gk) w2 of
                  (w3, inc, Some err) \<Rightarrow> (w3, n + inc, Some err)
                | (w3, inc, None) \<Rightarrow> (w3, n + inc, None))))"

text \<open>
  \<^verbatim>\<open>GaloisKey.WriteTo\<close>: the type switch. Any other writer is wrapped with
  \<^verbatim>\<open>bufio.NewWriter\<close> (the parameter \<open>NewWriter\<close>), whose result implements
  \<^verbatim>\<open>buffer.Writer\<close>, and the method calls itself on the wrapper. The writer returned
  is the one the writes went to.
\<close>

function GaloisKey_WriteTo ::
  "('w \<Rightarrow> uint64 \<Rightarrow> 'w \<times> int64 \<times> 'err option)
   \<Rightarrow> ('evk \<Rightarrow> 'w \<Rightarrow> 'w \<times> int64 \<times> 'err option)
   \<Rightarrow> ('pw \<Rightarrow> 'w)
   \<Rightarrow> 'evk GaloisKey \<Rightarrow> ('w, 'pw) io_Writer \<Rightarrow> 'w \<times> int64 \<times> 'err option" where
  "GaloisKey_WriteTo WriteUint64 EvaluationKey_WriteTo NewWriter gk (BufferWriter w) =
     GaloisKey_WriteTo_buffer WriteUint64 EvaluationKey_WriteTo gk w"
| "GaloisKey_WriteTo WriteUint64 EvaluationKey_WriteTo NewWriter gk (PlainWriter pw) =
     GaloisKey_WriteTo WriteUint64 EvaluationKey_WriteTo NewWriter gk
       (BufferWriter (NewWriter pw))"
  by pat_completeness auto
termination
  by (relation "measure (\<lambda>(_, _, _, _, w). case w of BufferWriter _ \<Rightarrow> 0 | PlainWriter _ \<Rightarrow> Suc 0)")
    auto

section \<open>Montgomery arithmetic (package ring)\<close>

text \<open>
  The package \<^verbatim>\<open>ring\<close> is represented in the sources by its test file only; the test
  \<^verbatim>\<open>test_MRed\<close> calls \<^verbatim>\<open>MForm(y, q, bredParams[j])\<close> and
  \<^verbatim>\<open>MRed(x, MForm(...), q, mredParams[j])\<close> on 64-bit values. The two functions are
  modelled on natural numbers, every intermediate value written out with its width.
\<close>

text \<open>
  Modelled from the spec: the Montgomery radix \<open>R\<close>, which the sources do not declare.
  The spec works over 64-bit moduli, so \<open>R\<close> is the 64-bit word base.
\<close>

definition R64 :: nat where
  "R64 = 2 ^ 64"

text \<open>
  Modelled from the spec: the precomputation of the Barrett constant, which is missing
  from the sources. The spec: ``precompute a constant from \<open>q\<close> enabling reduction of a
  double-width product using one multiply and few corrections''. The constant is the
  quotient of the double-width radix by \<open>q\<close>; a modulus is a positive 64-bit value.
\<close>

definition valid_bred :: "nat \<Rightarrow> nat \<Rightarrow> bool" where
  "valid_bred q bred = (0 < q \<and> q < R64 \<and> bred = (R64 * R64) div q)"

text \<open>
  Modelled from the spec: the precomputation of the Montgomery constant, which is
  missing from the sources. The spec: ``precompute \<open>q\<close>'s Montgomery constant'', with
  the precomputation failing for a \<open>q\<close> that is not odd. The constant is the negated
  inverse of \<open>q\<close> modulo \<open>R\<close>, which exists for odd \<open>q\<close> only.
\<close>

definition valid_mred :: "nat \<Rightarrow> nat \<Rightarrow> bool" where
  "valid_mred q mred = (0 < q \<and> q < R64 \<and> mred < R64 \<and> (q * mred) mod R64 = R64 - 1)"

text \<open>
  Modelled from the spec: the function \<^verbatim>\<open>MForm\<close>, which is missing from the sources.
  The spec: ``\<^verbatim>\<open>MForm(x)\<close> maps \<open>x\<close> into Montgomery representation (\<open>x*R mod q\<close>)''.
  The value is reached as the spec describes Barrett reduction: one multiplication of
  the double-width value \<open>x * R\<close> by the constant, and one correction.
\<close>

definition MForm :: "nat \<Rightarrow> nat \<Rightarrow> nat \<Rightarrow> nat" where
  "MForm x q bred =
     (let t = x * R64;
          s = (t * bred) div (R64 * R64);
          r = t - s * q
      in if q \<le> r then r - q else r)"

text \<open>
  Modelled from the spec: the function \<^verbatim>\<open>MRed\<close>, which is missing from the sources.
  The spec: ``\<^verbatim>\<open>MRed(a,b)\<close> computes \<open>(a*b)/R mod q\<close> so that repeated multiplications
  avoid full-width reduction''. The division by \<open>R\<close> is exact after a multiple of
  \<open>q\<close>, chosen with the Montgomery constant, has been added to the double-width product;
  one correction brings the quotient below \<open>q\<close>.
\<close>

definition MRed :: "nat \<Rightarrow> nat \<Rightarrow> nat \<Rightarrow> nat \<Rightarrow> nat" where
  "MRed x y q mred =
     (let t = x * y;
          m = ((t mod R64) * mred) mod R64;
          u = (t + m * q) div R64
      in if q \<le> u then u - q else u)"

section \<open>Theorems\<close>

text \<open>
  C10. When the map of the power basis has no entry for the key 1, the method returns
  the nil ciphertext with an error, whatever the evaluation and the slot count would do
  (they are not consulted: the result is the same for every choice of them). When the
  key is present, the method never returns an error built by its own check.
\<close>

theorem EvaluateFromPowerBasis_X1:
  "(Value pb 1 = None \<longrightarrow>
      (\<forall>EvaluatePolynomial Slots.
         EvaluateFromPowerBasis EvaluatePolynomial Slots maxAlloc eval pb p targetScale
           = Return None (Some (Errorf X1_nil_message))))
   \<and> (Value pb 1 \<noteq> None \<longrightarrow>
      (\<forall>opOut m.
         EvaluateFromPowerBasis EvaluatePolynomial Slots maxAlloc eval pb p targetScale
           \<noteq> Return opOut (Some (Errorf m))))"
  by (auto simp: EvaluateFromPowerBasis_def Let_def split: option.splits)

theorem EvaluateFromPowerBasis_X1_witness:
  "EvaluateFromPowerBasis
      (\<lambda>(_::unit) _ (_::(unit, unit, unit) pcircuits) _ (_::unit) _ (_::unit simIntegerPolynomialEvaluator).
         Some (Some (7::nat), None :: unit option))
      (\<lambda>_. Some 4) 281474976710656
      \<lparr>PolynomialEvaluator = (), Parameters = (), InvariantTensoring = False\<rparr>
      \<lparr>Value = Map.empty\<rparr> (IntegerPolynomial ()) ()
     = Return None (Some (Errorf X1_nil_message))
   \<and> Value \<lparr>Value = [1 \<mapsto> Some (5::nat)]\<rparr> 1 \<noteq> None
   \<and> EvaluateFromPowerBasis
        (\<lambda>(_::unit) _ (_::(unit, unit, unit) pcircuits) _ (_::unit) _ (_::unit simIntegerPolynomialEvaluator).
           Some (Some (7::nat), None :: unit option))
        (\<lambda>_. Some 4) 281474976710656
        \<lparr>PolynomialEvaluator = (), Parameters = (), InvariantTensoring = False\<rparr>
        \<lparr>Value = [1 \<mapsto> Some (5::nat)]\<rparr> (IntegerPolynomial ()) ()
       \<noteq> Return None (Some (Errorf X1_nil_message))
   \<and> EvaluateFromPowerBasis
        (\<lambda>(_::unit) _ (_::(unit, unit, unit) pcircuits) _ (_::unit) _ (_::unit simIntegerPolynomialEvaluator).
           Some (Some (7::nat), None :: unit option))
        (\<lambda>_. Some 4) 281474976710656
        \<lparr>PolynomialEvaluator = (), Parameters = (), InvariantTensoring = False\<rparr>
        \<lparr>Value = [1 \<mapsto> Some (5::nat)]\<rparr> (IntegerPolynomial ()) ()
       = Return (Some 7) None"
proof -
  let ?ep = "\<lambda>(_::unit) (_::nat PowerBasis) (_::(unit, unit, unit) pcircuits) (_::CoefficientGetter)
               (_::unit) (_::int) (_::unit simIntegerPolynomialEvaluator).
               Some (Some (7::nat), None :: unit option)"
  let ?sl = "\<lambda>_::nat option. Some (4::int)"
  let ?ma = "281474976710656 :: int"
  let ?ev = "\<lparr>PolynomialEvaluator = (), Parameters = (), InvariantTensoring = False\<rparr>"
  let ?p = "IntegerPolynomial () :: (unit, unit, unit) poly_input"
  let ?absent = "\<lparr>Value = Map.empty\<rparr> :: nat PowerBasis"
  let ?present = "\<lparr>Value = [1 \<mapsto> Some (5::nat)]\<rparr>"
  have a: "Value ?absent 1 = None" by simp
  have b: "Value ?present 1 \<noteq> None" by simp
  note absent = EvaluateFromPowerBasis_X1 [of ?absent ?ma ?ev ?p "()" ?ep ?sl, THEN conjunct1, rule_format, OF a]
  note present = EvaluateFromPowerBasis_X1 [of ?present ?ma ?ev ?p "()" ?ep ?sl, THEN conjunct2, rule_format, OF b]
  have run: "EvaluateFromPowerBasis ?ep ?sl ?ma ?ev ?present ?p () = Return (Some 7) None"
    by (simp add: EvaluateFromPowerBasis_def)
  show ?thesis
    apply (intro conjI)
       apply (rule absent)
      apply (rule b)
     apply (rule present)
    apply (rule run)
    done
qed

text \<open>
  C9. A successful \<^verbatim>\<open>GaloisKey.WriteTo\<close> returns the count \<^verbatim>\<open>BinarySize()\<close>, which is the
  size of the embedded evaluation key plus 16, and it has written that many bytes: the
  writer it returns holds the 8 bytes of each of the two fields and the bytes of the
  embedded key more than the writer it started from. This holds for a writer of either
  kind; for one that does not implement \<^verbatim>\<open>buffer.Writer\<close> the bytes are counted on the
  \<^verbatim>\<open>bufio\<close> wrapper the method writes to.

  The writes the method is built from are in other files, and are taken at their own
  promise. \<open>written\<close> counts the bytes a writer has received; a successful
  \<^verbatim>\<open>buffer.WriteUint64\<close> adds 8 bytes and reports 8; a successful \<^verbatim>\<open>WriteTo\<close> of the
  embedded key adds the bytes it reports, and reports that key's \<^verbatim>\<open>BinarySize()\<close>.
  The byte count is exact; it equals the word \<^verbatim>\<open>BinarySize()\<close> whenever the sum does not
  wrap around at 64 bits.
\<close>

theorem GaloisKey_WriteTo_BinarySize:
  assumes u64: "\<forall>w v w' inc. WriteUint64 w v = (w', inc, None)
                  \<longrightarrow> inc = 8 \<and> written w' = written w + 8"
    and evk: "\<forall>w w' inc. EvaluationKey_WriteTo (EvaluationKey gk) w = (w', inc, None)
                \<longrightarrow> inc = EvaluationKey_BinarySize (EvaluationKey gk)
                    \<and> written w' = written w + unat inc"
    and ok: "GaloisKey_WriteTo WriteUint64 EvaluationKey_WriteTo NewWriter gk w = (w', n, None)"
  shows "n = GaloisKey_BinarySize EvaluationKey_BinarySize gk
         \<and> GaloisKey_BinarySize EvaluationKey_BinarySize gk
             = EvaluationKey_BinarySize (EvaluationKey gk) + 16
         \<and> written w'
             = written (case w of BufferWriter b \<Rightarrow> b | PlainWriter pw \<Rightarrow> NewWriter pw)
               + unat (EvaluationKey_BinarySize (EvaluationKey gk)) + 16
         \<and> (unat (EvaluationKey_BinarySize (EvaluationKey gk)) + 16 < 2 ^ 64 \<longrightarrow>
              written w'
                = written (case w of BufferWriter b \<Rightarrow> b | PlainWriter pw \<Rightarrow> NewWriter pw)
                  + unat (GaloisKey_BinarySize EvaluationKey_BinarySize gk))"
proof -
  let ?s = "EvaluationKey_BinarySize (EvaluationKey gk)"
  have buffered: "n' = ?s + 16 \<and> written b' = written b + unat ?s + 16"
    if run: "GaloisKey_WriteTo_buffer WriteUint64 EvaluationKey_WriteTo gk b = (b', n', None)"
    for b b' n'
  proof -
    obtain w1 i1 e1 where s1: "WriteUint64 b (GaloisElement gk) = (w1, i1, e1)"
      by (metis prod_cases3)
    obtain w2 i2 e2 where s2: "WriteUint64 w1 (NthRoot gk) = (w2, i2, e2)"
      by (metis prod_cases3)
    obtain w3 i3 e3 where s3: "EvaluationKey_WriteTo (EvaluationKey gk) w2 = (w3, i3, e3)"
      by (metis prod_cases3)
    from run s1 s2 s3 have none: "e1 = None" "e2 = None" "e3 = None"
      and sum: "n' = i1 + i2 + i3" and last: "b' = w3"
      by (auto simp: GaloisKey_WriteTo_buffer_def Let_def split: option.splits)
    from u64 s1 none have 1: "i1 = 8" "written w1 = written b + 8" by blast+
    from u64 s2 none have 2: "i2 = 8" "written w2 = written w1 + 8" by blast+
    from evk s3 none have 3: "i3 = ?s" "written w3 = written w2 + unat i3" by blast+
    show ?thesis using sum last 1 2 3 by simp
  qed
  let ?w0 = "case w of BufferWriter b \<Rightarrow> b | PlainWriter pw \<Rightarrow> NewWriter pw"
  have both: "n = ?s + 16 \<and> written w' = written ?w0 + unat ?s + 16"
  proof (cases w)
    case (BufferWriter b)
    with ok buffered [of b w' n] show ?thesis by simp
  next
    case (PlainWriter pw)
    with ok buffered [of "NewWriter pw" w' n] show ?thesis by simp
  qed
  have size: "GaloisKey_BinarySize EvaluationKey_BinarySize gk = ?s + 16"
    by (simp add: GaloisKey_BinarySize_def)
  have exact: "written w' = written ?w0 + unat (GaloisKey_BinarySize EvaluationKey_BinarySize gk)"
    if "unat ?s + 16 < 2 ^ 64"
  proof -
    have "unat (?s + 16) = unat ?s + 16"
      using that by (simp add: unat_word_ariths)
    with both show ?thesis by (simp add: size)
  qed
  from both size exact show ?thesis by simp
qed


theorem GaloisKey_WriteTo_BinarySize_witness:
  "GaloisKey_WriteTo
      (\<lambda>(w::8 word list) (v::uint64).
         (w @ map (\<lambda>i. ucast (drop_bit (8 * i) v)) [0..<8], 8, None :: unit option))
      (\<lambda>(k::8 word list) (w::8 word list). (w @ k, word_of_nat (length k), None))
      (\<lambda>pw::unit. [])
      \<lparr>GaloisElement = 5, NthRoot = 258, EvaluationKey = replicate 24 7\<rparr> (PlainWriter ())
     = ([5, 0, 0, 0, 0, 0, 0, 0, 2, 1, 0, 0, 0, 0, 0, 0] @ replicate 24 7, 40, None)
   \<and> length ([5, 0, 0, 0, 0, 0, 0, 0, 2, 1, 0, 0, 0, 0, 0, 0] @ replicate 24 (7 :: 8 word)) = 40
   \<and> GaloisKey_BinarySize (\<lambda>k. word_of_nat (length k))
        \<lparr>GaloisElement = 5, NthRoot = 258, EvaluationKey = replicate 24 (7 :: 8 word)\<rparr>
     = 40"
proof -
  let ?gk = "\<lparr>GaloisElement = 5, NthRoot = 258, EvaluationKey = replicate 24 (7 :: 8 word)\<rparr>"
  let ?wu = "\<lambda>(w::8 word list) (v::uint64).
               (w @ map (\<lambda>i. ucast (drop_bit (8 * i) v)) [0..<8], 8 :: int64, None :: unit option)"
  let ?we = "\<lambda>(k::8 word list) (w::8 word list).
               (w @ k, word_of_nat (length k) :: int64, None :: unit option)"
  let ?bs = "\<lambda>k::8 word list. word_of_nat (length k) :: go_int"
  let ?nw = "\<lambda>pw::unit. [] :: 8 word list"
  let ?out = "[5, 0, 0, 0, 0, 0, 0, 0, 2, 1, 0, 0, 0, 0, 0, 0] @ replicate 24 (7 :: 8 word)"
  have run: "GaloisKey_WriteTo ?wu ?we ?nw ?gk (PlainWriter ()) = (?out, 40, None)"
    by (simp add: GaloisKey_WriteTo_buffer_def upt_rec drop_bit_eq_div)
  note inst = GaloisKey_WriteTo_BinarySize [of ?wu length ?we ?gk ?bs ?nw "PlainWriter ()" ?out 40,
      OF _ _ run]
  have u64: "\<forall>w v w' inc. ?wu w v = (w', inc, None) \<longrightarrow> inc = 8 \<and> length w' = length w + 8"
    by auto
  have evk: "\<forall>w w' inc. ?we (EvaluationKey ?gk) w = (w', inc, None)
               \<longrightarrow> inc = ?bs (EvaluationKey ?gk) \<and> length w' = length w + unat inc"
    by auto
  have size: "GaloisKey_BinarySize ?bs ?gk = 40"
    using inst [OF u64 evk] by (rule conjunct1 [THEN sym])
  have len: "length ?out = 40"
    by simp
  show ?thesis
    by (intro conjI run len size)
qed

subsection \<open>Montgomery arithmetic\<close>

text \<open>
  The Barrett quotient never overshoots, and it falls short by less than two, so one
  correction is enough.
\<close>

lemma R64_pos: "0 < R64"
  by (simp add: R64_def)

lemma barrett_quotient_le:
  assumes q: "0 < (q::nat)" and B: "0 < B"
  shows "((t * (B div q)) div B) * q \<le> t"
proof -
  let ?b = "B div q"
  let ?s = "(t * ?b) div B"
  have sB: "?s * B \<le> t * ?b" by simp
  have bq: "?b * q \<le> B" by simp
  have "(?s * q) * B = (?s * B) * q" by (simp add: ac_simps)
  also have "\<dots> \<le> (t * ?b) * q" using sB by (rule mult_le_mono1)
  also have "\<dots> = t * (?b * q)" by (simp add: ac_simps)
  also have "\<dots> \<le> t * B" using bq by (rule mult_le_mono2)
  finally have "(?s * q) * B \<le> t * B" .
  with B show ?thesis by (simp only: mult_le_cancel2)
qed

lemma barrett_remainder_less:
  assumes q: "0 < (q::nat)" and B: "0 < B" and t: "t \<le> B"
  shows "t < ((t * (B div q)) div B) * q + 2 * q"
proof (cases "t = 0")
  case True
  with q show ?thesis by simp
next
  case False
  let ?b = "B div q"
  let ?s = "(t * ?b) div B"
  have 1: "B < (?b + 1) * q"
    using q by (metis Suc_eq_plus1 dividend_less_div_times add.commute mult.commute mult_Suc)
  have 2: "t * ?b < (?s + 1) * B"
    using B by (metis Suc_eq_plus1 dividend_less_div_times add.commute mult.commute mult_Suc)
  have "t * B < t * ((?b + 1) * q)" using 1 False by simp
  also have "\<dots> = (t * ?b) * q + t * q" by (simp add: algebra_simps)
  also have "\<dots> \<le> ((?s + 1) * B) * q + t * q" using 2 by (simp add: less_imp_le)
  also have "\<dots> \<le> ((?s + 1) * B) * q + B * q" using t by simp
  also have "\<dots> = (?s * q + 2 * q) * B" by (simp add: algebra_simps)
  finally have "t * B < (?s * q + 2 * q) * B" .
  then show ?thesis by simp
qed

text \<open>The model of \<^verbatim>\<open>MForm\<close> has the value the spec gives: \<open>x * R mod q\<close>.\<close>

lemma MForm_value:
  assumes v: "valid_bred q bred" and x: "x < q"
  shows "MForm x q bred = (x * R64) mod q"
proof -
  from v have q: "0 < q" and qR: "q < R64" and bred: "bred = (R64 * R64) div q"
    by (simp_all add: valid_bred_def)
  let ?t = "x * R64"
  let ?s = "(?t * bred) div (R64 * R64)"
  have B: "0 < R64 * R64" using R64_pos by simp
  have tB: "?t \<le> R64 * R64" using x qR by (simp add: less_imp_le)
  have lo: "?s * q \<le> ?t" unfolding bred by (rule barrett_quotient_le [OF q B])
  have hi: "?t < ?s * q + 2 * q" unfolding bred by (rule barrett_remainder_less [OF q B tB])
  define r where "r = ?t - ?s * q"
  have t_eq: "?t = r + ?s * q" using lo by (simp add: r_def)
  have r2: "r < 2 * q" using hi lo by (simp add: r_def)
  have rmod: "r mod q = ?t mod q" by (subst t_eq) simp
  have "(if q \<le> r then r - q else r) = ?t mod q"
  proof (cases "q \<le> r")
    case True
    then have "(r - q) mod q = r mod q" by (simp add: le_mod_geq)
    moreover from True r2 have "r - q < q" by simp
    ultimately show ?thesis using True rmod by simp
  next
    case False
    then show ?thesis using rmod by simp
  qed
  then show ?thesis unfolding MForm_def Let_def r_def .
qed

lemma valid_mred_coprime:
  assumes "valid_mred q mred"
  shows "coprime q R64"
proof -
  from assms have m: "(q * mred) mod R64 = R64 - 1" by (simp add: valid_mred_def)
  have "odd q"
  proof
    assume "even q"
    then have "even (q * mred)" by simp
    moreover have "(2::nat) dvd R64" by (simp add: R64_def)
    then have "(q * mred) mod R64 mod 2 = (q * mred) mod 2" by (rule mod_mod_cancel)
    moreover have "(R64 - 1) mod 2 = 1" by (simp add: R64_def)
    ultimately show False using m by simp
  qed
  then have "coprime q (2::nat)" by simp
  then have "coprime q ((2::nat) ^ 64)" by (simp only: coprime_power_right_iff) simp
  then show ?thesis unfolding R64_def .
qed

text \<open>
  The model of \<^verbatim>\<open>MRed\<close> has the value the spec gives, \<open>(x * y) / R mod q\<close>: the result is
  below \<open>q\<close> and, multiplied by \<open>R\<close>, congruent to the product.
\<close>

lemma MRed_spec:
  assumes v: "valid_mred q mred" and t: "x * y < q * R64"
  shows "MRed x y q mred < q \<and> (MRed x y q mred * R64) mod q = (x * y) mod q"
proof -
  from v have q: "0 < q" and qR: "q < R64" and m: "(q * mred) mod R64 = R64 - 1"
    by (simp_all add: valid_mred_def)
  define t where "t = x * y"
  define m where "m = ((t mod R64) * mred) mod R64"
  define u where "u = (t + m * q) div R64"
  have red: "MRed x y q mred = (if q \<le> u then u - q else u)"
    unfolding MRed_def Let_def u_def m_def t_def ..
  have "(t + m * q) mod R64 = (t + t * (q * mred)) mod R64"
    unfolding m_def
    by (metis (no_types, opaque_lifting) mod_add_right_eq mod_mult_left_eq mod_mult_right_eq mult.assoc mult.commute)
  also have "\<dots> = (t + t * ((q * mred) mod R64)) mod R64"
    by (metis mod_add_right_eq mod_mult_right_eq)
  also have "\<dots> = (t + t * (R64 - 1)) mod R64"
    by (simp only: \<open>(q * mred) mod R64 = R64 - 1\<close>)
  also have "t + t * (R64 - 1) = t * R64"
    using R64_pos by (metis Suc_pred' mult_Suc_right)
  finally have "(t + m * q) mod R64 = 0" by simp
  then have uR: "u * R64 = t + m * q"
    unfolding u_def by (metis add.right_neutral div_mult_mod_eq)
  have "m < R64" unfolding m_def using R64_pos by simp
  then have "m * q < q * R64" using q by (simp add: mult.commute)
  moreover have "(2 * q) * R64 = q * R64 + q * R64" by simp
  ultimately have "t + m * q < (2 * q) * R64" using t unfolding t_def by linarith
  with uR have "u * R64 < (2 * q) * R64" by simp
  then have u2: "u < 2 * q" by simp
  have umod: "(u * R64) mod q = t mod q" by (simp add: uR)
  show ?thesis
  proof (cases "q \<le> u")
    case True
    then have "(u - q) + q = u" by simp
    moreover have "((u - q) + q) * R64 = ((u - q) * R64) + q * R64"
      by (rule add_mult_distrib)
    ultimately have "u * R64 = ((u - q) * R64) + q * R64" by simp
    then have "(u * R64) mod q = (((u - q) * R64) + q * R64) mod q" by (rule arg_cong)
    also have "\<dots> = ((u - q) * R64) mod q" by simp
    finally have "((u - q) * R64) mod q = t mod q" using umod by simp
    moreover from True u2 have "u - q < q" by simp
    ultimately show ?thesis using True unfolding red t_def by simp
  next
    case False
    then show ?thesis using umod unfolding red t_def by simp
  qed
qed

lemma mod_mult_cancel_coprime:
  fixes a b q r :: nat
  assumes cop: "coprime q r" and eq: "(a * r) mod q = (b * r) mod q"
  shows "a mod q = b mod q"
proof -
  have "(int a * int r) mod int q = (int b * int r) mod int q"
    using eq by (metis of_nat_mod of_nat_mult)
  then have "int q dvd (int a * int r - int b * int r)"
    by (simp add: mod_eq_dvd_iff)
  then have "int q dvd (int a - int b) * int r"
    by (simp add: left_diff_distrib)
  moreover have "coprime (int q) (int r)" using cop by simp
  ultimately have "int q dvd (int a - int b)"
    by (simp add: coprime_dvd_mult_left_iff)
  then have "int a mod int q = int b mod int q"
    by (simp add: mod_eq_dvd_iff)
  then show ?thesis
    by (metis nat_int of_nat_mod)
qed

text \<open>
  C5. For a 64-bit modulus \<open>q\<close> with its Barrett constant \<open>bred\<close> and its Montgomery
  constant \<open>mred\<close>, and residues \<open>x\<close> and \<open>y\<close> below \<open>q\<close>, the Montgomery product of
  \<open>x\<close> with the Montgomery form of \<open>y\<close> is the exact product reduced modulo \<open>q\<close>.
\<close>

theorem MRed_MForm_correct:
  assumes b: "valid_bred q bred" and m: "valid_mred q mred" and x: "x < q" and y: "y < q"
  shows "MRed x (MForm y q bred) q mred = (x * y) mod q"
proof -
  from m have q: "0 < q" and qR: "q < R64" by (simp_all add: valid_mred_def)
  have mf: "MForm y q bred = (y * R64) mod q" using b y by (rule MForm_value)
  have "MForm y q bred < q" using q by (simp add: mf)
  then have "x * MForm y q bred < q * q" using x by (simp add: mult_strict_mono')
  also have "\<dots> \<le> q * R64" using qR by simp
  finally have small: "x * MForm y q bred < q * R64" .
  from MRed_spec [OF m small]
  have lt: "MRed x (MForm y q bred) q mred < q"
    and eq: "(MRed x (MForm y q bred) q mred * R64) mod q = (x * MForm y q bred) mod q"
    by simp_all
  have "(x * MForm y q bred) mod q = (x * (y * R64)) mod q"
    unfolding mf by (rule mod_mult_right_eq)
  also have "\<dots> = ((x * y) * R64) mod q" by (simp add: mult.assoc)
  finally have "(MRed x (MForm y q bred) q mred * R64) mod q = ((x * y) * R64) mod q"
    using eq by simp
  then have "MRed x (MForm y q bred) q mred mod q = (x * y) mod q"
    by (rule mod_mult_cancel_coprime [OF valid_mred_coprime [OF m]])
  with lt show ?thesis by simp
qed

theorem MRed_MForm_correct_witness:
  "valid_bred 2305843009211596801 147573952589810630592
   \<and> valid_mred 2305843009211596801 11529210648019861503
   \<and> MForm 54321 2305843009211596801 147573952589810630592 \<noteq> 54321
   \<and> MRed 12345 (MForm 54321 2305843009211596801 147573952589810630592)
        2305843009211596801 11529210648019861503 = 670592745"
proof -
  have b: "valid_bred 2305843009211596801 147573952589810630592"
    by (simp add: valid_bred_def R64_def)
  have m: "valid_mred 2305843009211596801 11529210648019861503"
    by (simp add: valid_mred_def R64_def)
  have f: "MForm 54321 2305843009211596801 147573952589810630592 \<noteq> 54321"
    by (simp add: MForm_def R64_def Let_def)
  have "MRed 12345 (MForm 54321 2305843009211596801 147573952589810630592)
          2305843009211596801 11529210648019861503
        = (12345 * 54321) mod 2305843009211596801"
    by (rule MRed_MForm_correct [OF b m]) simp_all
  then have r: "MRed 12345 (MForm 54321 2305843009211596801 147573952589810630592)
          2305843009211596801 11529210648019861503 = 670592745"
    by simp
  show ?thesis
    by (intro conjI b m f r)
qed

end
